theory Spec2Isabelle
  imports Main "HOL-Library.Sublist"
begin

section \<open>The converter of src/td/converter/Converter.ts\<close>

text \<open>
  The class \<open>Converter\<close> drives the TypeScript front-end (\<open>ts.*\<close>) and the plugin host.
  Its own code is embedded below, method by method. What it calls outside the file is a
  parameter of the model: the functions of the \<open>ts\<close> namespace, the listeners reached
  through \<open>dispatch\<close>, and \<open>visit\<close>. Built-ins of the language and of Node
  (\<open>String.prototype.toLowerCase\<close>, \<open>||\<close>, \<open>for ... in\<close>, \<open>Path.join\<close>) are
  written out as definitions.
\<close>

subsection \<open>Data\<close>

text \<open>\<open>ts.ScriptTarget\<close>; \<open>Latest\<close> is another name of \<open>ES6\<close> there.\<close>

datatype ScriptTarget = ES3 | ES5 | ES6

text \<open>The fields of \<open>ts.CompilerOptions\<close> that the converter reads; both are optional.\<close>

record CompilerOptions =
  target :: "ScriptTarget option"
  charset :: "string option"

record IOptions =
  name :: "string option"

record IApplication =
  options :: IOptions
  compilerOptions :: CompilerOptions

text \<open>
  The instance fields of \<open>Converter\<close>. \<open>currentDirectory\<close> is declared without an
  initialiser, so it is \<open>undefined\<close> (\<open>None\<close>) until \<open>getCurrentDirectory\<close> stores a value.
\<close>

record Converter =
  application :: IApplication
  currentDirectory :: "string option"

subsection \<open>getDefaultLib and getDefaultLibFilename\<close>










subsection \<open>getSourceFile\<close>

text \<open>
  What \<open>ts.sys.readFile\<close> can do: throw an error object, or return the text, or return
  \<open>undefined\<close> for a file that does not exist. Of the error object the code reads
  \<open>number\<close> (absent on most errors) and \<open>message\<close>.
\<close>

record js_error =
  number :: "int option"
  message :: string

datatype readFile_outcome = Throws js_error | Returns "string option"

definition ERROR_UNSUPPORTED_FILE_ENCODING :: int where
  "ERROR_UNSUPPORTED_FILE_ENCODING = - 2147024809"

text \<open>
  The result is the returned source file (\<open>None\<close> is \<open>undefined\<close>) together with the
  messages passed to \<open>onError\<close>, in call order. \<open>onError\<close> is optional: the flag says
  whether the caller supplied it.
\<close>

definition getSourceFile ::
  "(string \<Rightarrow> string option \<Rightarrow> readFile_outcome) \<Rightarrow>
   (string \<Rightarrow> string \<Rightarrow> ScriptTarget \<Rightarrow> string \<Rightarrow> 'sf) \<Rightarrow>
   Converter \<Rightarrow> string \<Rightarrow> ScriptTarget \<Rightarrow> bool \<Rightarrow> 'sf option \<times> string list" where
  "getSourceFile sys_readFile createSourceFile this filename languageVersion onError =
     (let (text, messages) =
        (case sys_readFile filename (charset (compilerOptions (application this))) of
           Returns t \<Rightarrow> (t, [])
         | Throws e \<Rightarrow>
             (Some [],
              if onError
              then [if number e = Some ERROR_UNSUPPORTED_FILE_ENCODING
                    then ''Unsupported file encoding'' else message e]
              else []))
      in (case text of
            Some t \<Rightarrow> Some (createSourceFile filename t languageVersion ''0'')
          | None \<Rightarrow> None,
          messages))"

subsection \<open>getCurrentDirectory\<close>





subsection \<open>getCanonicalFileName\<close>




subsection \<open>writeFile\<close>

text \<open>
  The method body is empty. Its model returns what a caller can observe afterwards: the
  instance, the files on disc (name to contents) and the messages passed to \<open>onError\<close>.
\<close>

definition writeFile ::
  "Converter \<Rightarrow> (string \<rightharpoonup> string) \<Rightarrow> string \<Rightarrow> string \<Rightarrow> bool \<Rightarrow> bool \<Rightarrow>
   Converter \<times> (string \<rightharpoonup> string) \<times> string list" where
  "writeFile this disc fileName data writeByteOrderMark onError = (this, disc, [])"

subsection \<open>convert: the state it works on\<close>

text \<open>The event names declared as static members of \<open>Converter\<close>.\<close>

datatype event =
    EVENT_BEGIN | EVENT_END
  | EVENT_FILE_BEGIN | EVENT_CREATE_DECLARATION | EVENT_CREATE_SIGNATURE
  | EVENT_CREATE_PARAMETER | EVENT_CREATE_TYPE_PARAMETER | EVENT_FUNCTION_IMPLEMENTATION
  | EVENT_RESOLVE_BEGIN | EVENT_RESOLVE | EVENT_RESOLVE_END

fun event_name :: "event \<Rightarrow> string" where
  "event_name EVENT_BEGIN = ''begin''"
| "event_name EVENT_END = ''end''"
| "event_name EVENT_FILE_BEGIN = ''fileBegin''"
| "event_name EVENT_CREATE_DECLARATION = ''createDeclaration''"
| "event_name EVENT_CREATE_SIGNATURE = ''createSignature''"
| "event_name EVENT_CREATE_PARAMETER = ''createParameter''"
| "event_name EVENT_CREATE_TYPE_PARAMETER = ''createTypeParameter''"
| "event_name EVENT_FUNCTION_IMPLEMENTATION = ''functionImplementation''"
| "event_name EVENT_RESOLVE_BEGIN = ''resolveBegin''"
| "event_name EVENT_RESOLVE = ''resolveReflection''"
| "event_name EVENT_RESOLVE_END = ''resolveEnd''"

text \<open>
  The objects that \<open>convert\<close> shares with its caller and with the code it calls:
  \<^item> \<open>arrays\<close>: the string arrays, by address. The caller's \<open>fileNames\<close> is one of them,
    and the \<open>Context\<close> handed to every listener holds the same array;
  \<^item> \<open>reflections\<close>: \<open>project.reflections\<close> of the project of the running conversion,
    the object that maps a reflection id to the reflection, as the list of its entries;
  \<^item> \<open>ext\<close>: whatever else the listeners keep.
\<close>

record ('r, 'x) store =
  arrays :: "nat \<Rightarrow> string list"
  reflections :: "(nat \<times> 'r) list"
  ext :: 'x

text \<open>
  What the front-end returns for a set of files: the program's source files, its
  diagnostics, and the diagnostics of its type checker
  (\<open>program.getTypeChecker(true).getDiagnostics()\<close>). The front-end reports problems of
  the sources as diagnostics; that it could fail itself is not modelled.
\<close>

record ('sf, 'd) program =
  getSourceFiles :: "'sf list"
  getDiagnostics :: "'d list"
  checker_getDiagnostics :: "'d list"

record ('sf, 'd) ts =
  normalizeSlashes :: "string \<Rightarrow> string"
  normalizePath :: "string \<Rightarrow> string"
  createProgram :: "string list \<Rightarrow> CompilerOptions \<Rightarrow> ('sf, 'd) program"

text \<open>
  The code of the repository that \<open>convert\<close> calls and that is not in this file: the
  constructor of \<open>ProjectReflection\<close> (the index of the new project), \<open>dispatch\<close> of the
  plugin host, which runs the listeners registered for an event, and \<open>visit\<close>. A
  listener may change every shared object, and it may throw: the first component of the
  result is the exception, if any, and the second is the store as the call left it.
  The reflection handed to a \<open>resolveReflection\<close> listener is given with its key.
\<close>

record ('r, 'sf, 'x, 'e) plugins =
  new_ProjectReflection :: "string option \<Rightarrow> (nat \<times> 'r) list"
  dispatch :: "event \<Rightarrow> (nat \<times> 'r) option \<Rightarrow> ('r, 'x) store \<Rightarrow> 'e option \<times> ('r, 'x) store"
  visit :: "'sf \<Rightarrow> ('r, 'x) store \<Rightarrow> 'e option \<times> ('r, 'x) store"

text \<open>The calls that \<open>convert\<close> makes, in the order it makes them.\<close>

datatype ('r, 'sf) action =
    CreateProgram "string list"
  | Dispatch event "(nat \<times> 'r) option"
  | Visit 'sf

record ('r, 'sf, 'x, 'e) run =
  st :: "('r, 'x) store"
  trace :: "('r, 'sf) action list"
  thrown :: "'e option"

text \<open>
  One call out of \<open>convert\<close>. Nothing in \<open>convert\<close> catches an exception, so once a
  call has thrown, the calls after it are not made.
\<close>

definition call ::
  "('r, 'sf) action \<Rightarrow> (('r, 'x) store \<Rightarrow> 'e option \<times> ('r, 'x) store) \<Rightarrow>
   ('r, 'sf, 'x, 'e) run \<Rightarrow> ('r, 'sf, 'x, 'e) run" where
  "call a f s =
     (case thrown s of
        Some e \<Rightarrow> s
      | None \<Rightarrow> (let (e, h) = f (st s) in \<lparr>st = h, trace = trace s @ [a], thrown = e\<rparr>))"

record ('r, 'd) IConverterResult =
  project :: "(nat \<times> 'r) list"
  errors :: "'d list"

subsection \<open>convert: the loops\<close>

text \<open>
  \<open>for (var i = 0, c = fileNames.length; i < c; i++) fileNames[i] = f(fileNames[i])\<close>.
  The length is read once; the loop is entered with \<open>c = length xs\<close>, so every read is in range.
\<close>

function normalize_loop :: "(string \<Rightarrow> string) \<Rightarrow> nat \<Rightarrow> nat \<Rightarrow> string list \<Rightarrow> string list" where
  "normalize_loop f i c xs = (if i < c then normalize_loop f (Suc i) c (xs[i := f (xs ! i)]) else xs)"
  by pat_completeness auto
termination
  by (relation "measure (\<lambda>(f, i, c, xs). c - i)") auto

declare normalize_loop.simps [simp del]

definition normalize_fileNames :: "('sf, 'd) ts \<Rightarrow> nat \<Rightarrow> ('r, 'x) store \<Rightarrow> ('r, 'x) store" where
  "normalize_fileNames ts fileNames h =
     h\<lparr>arrays := (arrays h)
        (fileNames := normalize_loop (\<lambda>s. normalizePath ts (normalizeSlashes ts s))
                        0 (length (arrays h fileNames)) (arrays h fileNames))\<rparr>"

text \<open>
  \<open>for (var id in project.reflections)\<close>. The keys are numbers, and \<open>for ... in\<close> goes
  through the integer keys that the object has when the loop starts, in ascending order;
  a key deleted before its turn is not visited, and a key added while the loop runs is
  not visited in this loop (the enumeration that ECMAScript describes, and what V8 does).
\<close>

definition for_in_keys :: "(nat \<times> 'r) list \<Rightarrow> nat list" where
  "for_in_keys idx = sort (remdups (map fst idx))"

text \<open>
  The body of the loop looks the key up in the object as it is then
  (\<open>hasOwnProperty(id)\<close>, \<open>project.reflections[id]\<close>) and dispatches \<open>resolveReflection\<close>.
\<close>

fun resolve_loop ::
  "('r, 'sf, 'x, 'e) plugins \<Rightarrow> nat list \<Rightarrow> ('r, 'sf, 'x, 'e) run \<Rightarrow> ('r, 'sf, 'x, 'e) run" where
  "resolve_loop P [] s = s"
| "resolve_loop P (k # ks) s =
     (case map_of (reflections (st s)) k of
        None \<Rightarrow> resolve_loop P ks s
      | Some r \<Rightarrow>
          resolve_loop P ks
            (call (Dispatch EVENT_RESOLVE (Some (k, r))) (dispatch P EVENT_RESOLVE (Some (k, r))) s))"

subsection \<open>convert\<close>

text \<open>The first part, up to the end of \<open>program.getSourceFiles().forEach\<close>.\<close>

definition convert_files ::
  "('sf, 'd) ts \<Rightarrow> ('r, 'sf, 'x, 'e) plugins \<Rightarrow> Converter \<Rightarrow> nat \<Rightarrow> ('r, 'x) store \<Rightarrow>
   ('r, 'sf, 'x, 'e) run" where
  "convert_files ts P this fileNames h0 =
     (let h = normalize_fileNames ts fileNames h0;
          settings = options (application this);
          program = createProgram ts (arrays h fileNames) (compilerOptions (application this));
          h = h\<lparr>reflections := new_ProjectReflection P (name settings)\<rparr>;
          s = \<lparr>st = h, trace = [CreateProgram (arrays h fileNames)], thrown = None\<rparr>;
          s = call (Dispatch EVENT_BEGIN None) (dispatch P EVENT_BEGIN None) s
      in foldl (\<lambda>s sourceFile. call (Visit sourceFile) (visit P sourceFile) s) s
           (getSourceFiles program))"

definition resolve_begin ::
  "('r, 'sf, 'x, 'e) plugins \<Rightarrow> ('r, 'sf, 'x, 'e) run \<Rightarrow> ('r, 'sf, 'x, 'e) run" where
  "resolve_begin P s = call (Dispatch EVENT_RESOLVE_BEGIN None) (dispatch P EVENT_RESOLVE_BEGIN None) s"

text \<open>
  The whole method. It returns the run (store, calls made, exception) and what the
  caller gets: the exception, or the result object.
\<close>

definition convert ::
  "('sf, 'd) ts \<Rightarrow> ('r, 'sf, 'x, 'e) plugins \<Rightarrow> Converter \<Rightarrow> nat \<Rightarrow> ('r, 'x) store \<Rightarrow>
   ('r, 'sf, 'x, 'e) run \<times> ('e + ('r, 'd) IConverterResult)" where
  "convert ts P this fileNames h0 =
     (let program = createProgram ts (arrays (normalize_fileNames ts fileNames h0) fileNames)
                      (compilerOptions (application this));
          errors = getDiagnostics program @ checker_getDiagnostics program;
          s = convert_files ts P this fileNames h0;
          s = resolve_begin P s;
          s = resolve_loop P (for_in_keys (reflections (st s))) s;
          s = call (Dispatch EVENT_RESOLVE_END None) (dispatch P EVENT_RESOLVE_END None) s;
          s = call (Dispatch EVENT_END None) (dispatch P EVENT_END None) s
      in (s, case thrown s of
               Some e \<Rightarrow> Inl e
             | None \<Rightarrow> Inr \<lparr>project = reflections (st s), errors = errors\<rparr>))"

text \<open>The file names as \<open>convert\<close> hands them on, and the program made from them.\<close>

abbreviation normalized :: "('sf, 'd) ts \<Rightarrow> string list \<Rightarrow> string list" where
  "normalized ts names \<equiv> map (\<lambda>s. normalizePath ts (normalizeSlashes ts s)) names"

abbreviation program_of :: "('sf, 'd) ts \<Rightarrow> Converter \<Rightarrow> string list \<Rightarrow> ('sf, 'd) program" where
  "program_of ts this names \<equiv>
     createProgram ts (normalized ts names) (compilerOptions (application this))"

subsection \<open>Reading a trace\<close>



text \<open>The source files that were visited, in order.\<close>

primrec visited :: "('r, 'sf) action list \<Rightarrow> 'sf list" where
  "visited [] = []"
| "visited (a # as) = (case a of Visit sf \<Rightarrow> sf # visited as | _ \<Rightarrow> visited as)"

text \<open>
  The calls of a complete conversion of the files \<open>files\<close> (created from the names
  \<open>names\<close>) that resolved the index entries \<open>rs\<close>.
\<close>

definition lifecycle ::
  "string list \<Rightarrow> 'sf list \<Rightarrow> (nat \<times> 'r) list \<Rightarrow> ('r, 'sf) action list" where
  "lifecycle names files rs =
     [CreateProgram names, Dispatch EVENT_BEGIN None] @ map Visit files
     @ [Dispatch EVENT_RESOLVE_BEGIN None] @ map (\<lambda>e. Dispatch EVENT_RESOLVE (Some e)) rs
     @ [Dispatch EVENT_RESOLVE_END None, Dispatch EVENT_END None]"

subsection \<open>Predicates used in the statements\<close>


text \<open>
  The run \<open>s\<close> follows the plan \<open>t\<close>: its calls are an initial part of \<open>t\<close>, and all
  of \<open>t\<close> unless a call threw.
\<close>

definition follows :: "('r, 'sf, 'x, 'e) run \<Rightarrow> ('r, 'sf) action list \<Rightarrow> bool" where
  "follows s t \<longleftrightarrow> prefix (trace s) t \<and> (thrown s = None \<longrightarrow> trace s = t)"

text \<open>What a statement may assume of the code called: that it returns, that it removes
  no key from the reflection index, that it leaves one array as it is.\<close>

definition never_throws :: "(('r, 'x) store \<Rightarrow> 'e option \<times> ('r, 'x) store) \<Rightarrow> bool" where
  "never_throws f \<longleftrightarrow> (\<forall>h. fst (f h) = None)"


definition keeps_array :: "nat \<Rightarrow> (('r, 'x) store \<Rightarrow> 'e option \<times> ('r, 'x) store) \<Rightarrow> bool" where
  "keeps_array a f \<longleftrightarrow> (\<forall>h. arrays (snd (f h)) a = arrays h a)"

text \<open>The same front-end, reporting the diagnostics \<open>ds\<close> and \<open>cs\<close> instead of its own.\<close>

definition with_diagnostics :: "'d list \<Rightarrow> 'd list \<Rightarrow> ('sf, 'd) ts \<Rightarrow> ('sf, 'd) ts" where
  "with_diagnostics ds cs ts =
     ts\<lparr>createProgram := (\<lambda>names opts.
          (createProgram ts names opts)\<lparr>getDiagnostics := ds, checker_getDiagnostics := cs\<rparr>)\<rparr>"

subsection \<open>Concrete conversions\<close>

text \<open>A front-end that has one source file per file name and reports two diagnostics.\<close>

definition ts0 :: "(string, string) ts" where
  "ts0 = \<lparr>normalizeSlashes = map (\<lambda>c. if c = CHR 0x5C then CHR ''/'' else c),
          normalizePath = (\<lambda>s. s),
          createProgram = (\<lambda>names opts.
            \<lparr>getSourceFiles = names, getDiagnostics = [''syntax''],
             checker_getDiagnostics = [''type'']\<rparr>)\<rparr>"

definition this0 :: Converter where
  "this0 = \<lparr>application = \<lparr>options = \<lparr>name = None\<rparr>,
                           compilerOptions = \<lparr>target = Some ES5, charset = None\<rparr>\<rparr>,
            currentDirectory = None\<rparr>"

definition store0 :: "(string, unit) store" where
  "store0 = \<lparr>arrays = (\<lambda>a. if a = 0 then [[CHR ''a'', CHR 0x5C, CHR ''b'']] else []),
             reflections = [], ext = ()\<rparr>"

text \<open>
  Plugins: \<open>visit\<close> creates the reflections 1 and 2. In \<open>plugins_adding\<close> the listener
  of \<open>resolveReflection\<close> creates reflection 3 when it resolves reflection 1; in
  \<open>plugins_deleting\<close> it removes reflection 2 when it resolves reflection 1.
\<close>

definition visit0 :: "string \<Rightarrow> (string, unit) store \<Rightarrow> string option \<times> (string, unit) store" where
  "visit0 sf h = (None, h\<lparr>reflections := reflections h @ [(1, ''A''), (2, ''B'')]\<rparr>)"

definition plugins_adding :: "(string, string, unit, string) plugins" where
  "plugins_adding =
     \<lparr>new_ProjectReflection = (\<lambda>n. []),
      dispatch = (\<lambda>ev arg h.
        if ev = EVENT_RESOLVE \<and> map_option fst arg = Some 1
        then (None, h\<lparr>reflections := reflections h @ [(3, ''C'')]\<rparr>) else (None, h)),
      visit = visit0\<rparr>"

definition plugins_deleting :: "(string, string, unit, string) plugins" where
  "plugins_deleting =
     \<lparr>new_ProjectReflection = (\<lambda>n. []),
      dispatch = (\<lambda>ev arg h.
        if ev = EVENT_RESOLVE \<and> map_option fst arg = Some 1
        then (None, h\<lparr>reflections := filter (\<lambda>e. fst e \<noteq> 2) (reflections h)\<rparr>) else (None, h)),
      visit = visit0\<rparr>"



text \<open>A file system whose one file cannot be decoded, and a front-end that keeps the text.\<close>

definition readFile0 :: "string \<Rightarrow> string option \<Rightarrow> readFile_outcome" where
  "readFile0 filename cs =
     (if filename = ''bad.ts''
      then Throws \<lparr>number = Some (- 2147024809), message = ''E_INVALIDARG''\<rparr>
      else if filename = ''locked.ts''
      then Throws \<lparr>number = None, message = ''EACCES: permission denied''\<rparr>
      else if filename = ''a.ts'' then Returns (Some ''var a;'')
      else Returns None)"

definition createSourceFile0 :: "string \<Rightarrow> string \<Rightarrow> ScriptTarget \<Rightarrow> string \<Rightarrow> string \<times> string" where
  "createSourceFile0 filename text languageVersion version = (filename, text)"

section \<open>Properties\<close>

subsection \<open>Evaluating the concrete conversions\<close>

lemmas run_defs =
  convert_def convert_files_def resolve_begin_def call_def normalize_fileNames_def
  normalize_loop.simps for_in_keys_def

lemmas sample_defs =
  ts0_def this0_def store0_def visit0_def plugins_adding_def plugins_deleting_def

subsection \<open>Paths\<close>













subsection \<open>Canonical file names\<close>




subsection \<open>The working directory\<close>




subsection \<open>Reading a source file\<close>

text \<open>
  Claim C4. \<open>getSourceFile\<close> returns for every outcome of the read. If the read throws,
  \<open>onError\<close>, when supplied, is called once, with \<open>Unsupported file encoding\<close> if the
  error carries the unsupported-encoding number and with the error's own message
  otherwise, and the source file created from the empty text is returned. If the read
  returns no content, no file is returned and \<open>onError\<close> is not called. If it returns a
  text, the source file created from that text is returned.
\<close>

theorem getSourceFile_read_outcomes:
  "(sys_readFile filename (charset (compilerOptions (application this))) = Throws e \<longrightarrow>
      getSourceFile sys_readFile createSourceFile this filename languageVersion onError
        = (Some (createSourceFile filename [] languageVersion ''0''),
           if onError
           then [if number e = Some ERROR_UNSUPPORTED_FILE_ENCODING
                 then ''Unsupported file encoding'' else message e]
           else []))
   \<and> (sys_readFile filename (charset (compilerOptions (application this))) = Returns None \<longrightarrow>
      getSourceFile sys_readFile createSourceFile this filename languageVersion onError = (None, []))
   \<and> (sys_readFile filename (charset (compilerOptions (application this))) = Returns (Some t) \<longrightarrow>
      getSourceFile sys_readFile createSourceFile this filename languageVersion onError
        = (Some (createSourceFile filename t languageVersion ''0''), []))"
  by (simp add: getSourceFile_def)

theorem getSourceFile_read_outcomes_witness:
  "getSourceFile readFile0 createSourceFile0 this0 ''bad.ts'' ES5 True
     = (Some (''bad.ts'', []), [''Unsupported file encoding''])
   \<and> getSourceFile readFile0 createSourceFile0 this0 ''locked.ts'' ES5 True
     = (Some (''locked.ts'', []), [''EACCES: permission denied''])
   \<and> getSourceFile readFile0 createSourceFile0 this0 ''bad.ts'' ES5 False
     = (Some (''bad.ts'', []), [])
   \<and> getSourceFile readFile0 createSourceFile0 this0 ''missing.ts'' ES5 True = (None, [])
   \<and> getSourceFile readFile0 createSourceFile0 this0 ''a.ts'' ES5 True
     = (Some (''a.ts'', ''var a;''), [])"
proof -
  have bad: "readFile0 ''bad.ts'' (charset (compilerOptions (application this0)))
      = Throws \<lparr>number = Some (- 2147024809), message = ''E_INVALIDARG''\<rparr>"
    by (simp add: readFile0_def)
  have locked: "readFile0 ''locked.ts'' (charset (compilerOptions (application this0)))
      = Throws \<lparr>number = None, message = ''EACCES: permission denied''\<rparr>"
    by (simp add: readFile0_def)
  have missing: "readFile0 ''missing.ts'' (charset (compilerOptions (application this0))) = Returns None"
    by (simp add: readFile0_def)
  have a: "readFile0 ''a.ts'' (charset (compilerOptions (application this0))) = Returns (Some ''var a;'')"
    by (simp add: readFile0_def)
  note inst = getSourceFile_read_outcomes [where sys_readFile = readFile0
      and createSourceFile = createSourceFile0 and this = this0 and languageVersion = ES5]
  from inst [where filename = "''bad.ts''" and onError = True, THEN conjunct1, rule_format, OF bad]
    inst [where filename = "''locked.ts''" and onError = True, THEN conjunct1, rule_format, OF locked]
    inst [where filename = "''bad.ts''" and onError = False, THEN conjunct1, rule_format, OF bad]
    inst [where filename = "''missing.ts''" and onError = True, THEN conjunct2, THEN conjunct1,
      rule_format, OF missing]
    inst [where filename = "''a.ts''" and onError = True, THEN conjunct2, THEN conjunct2,
      rule_format, OF a]
  show ?thesis
    by (simp add: ERROR_UNSUPPORTED_FILE_ENCODING_def createSourceFile0_def)
qed

subsection \<open>Writing a file\<close>

text \<open>
  Claim C9. \<open>writeFile\<close> does nothing: for all arguments, the instance and the files on
  disc are afterwards what they were, and \<open>onError\<close> has not been called.
\<close>

theorem writeFile_noop:
  "writeFile this disc fileName data writeByteOrderMark onError = (this, disc, [])"
  by (simp add: writeFile_def)

theorem writeFile_noop_witness:
  "writeFile this0 Map.empty ''out.js'' ''var a;'' True True = (this0, Map.empty, [])"
  by (rule writeFile_noop)

subsection \<open>The loop over the file names\<close>

lemma normalize_loop_take_drop:
  "c = length xs \<Longrightarrow> i \<le> c \<Longrightarrow> normalize_loop f i c xs = take i xs @ map f (drop i xs)"
proof (induction f i c xs rule: normalize_loop.induct)
  case (1 f i c xs)
  show ?case
  proof (cases "i < c")
    case True
    have "normalize_loop f i c xs = normalize_loop f (Suc i) c (xs[i := f (xs ! i)])"
      using True by (subst normalize_loop.simps) simp
    also have "\<dots> = take (Suc i) (xs[i := f (xs ! i)]) @ map f (drop (Suc i) (xs[i := f (xs ! i)]))"
      using "1.IH" [OF True] "1.prems" True by simp
    also have "\<dots> = take i xs @ map f (drop i xs)"
      using True "1.prems"
      by (simp add: take_Suc_conv_app_nth Cons_nth_drop_Suc [symmetric])
    finally show ?thesis .
  next
    case False
    then show ?thesis using "1.prems" by (subst normalize_loop.simps) simp
  qed
qed

lemma normalize_loop_map: "normalize_loop f 0 (length xs) xs = map f xs"
  by (simp add: normalize_loop_take_drop)

lemma arrays_normalize_fileNames:
  "arrays (normalize_fileNames ts a h) b =
     (if b = a then normalized ts (arrays h a) else arrays h b)"
  by (simp add: normalize_fileNames_def normalize_loop_map)

subsection \<open>Calls and the plan of a conversion\<close>

lemma call_thrown: "thrown s \<noteq> None \<Longrightarrow> call a f s = s"
  by (auto simp: call_def)

lemma trace_call: "thrown s = None \<Longrightarrow> trace (call a f s) = trace s @ [a]"
  by (simp add: call_def split: prod.splits)

lemma trace_call_cases: "trace (call a f s) = trace s \<or> trace (call a f s) = trace s @ [a]"
  by (cases "thrown s") (auto simp: trace_call call_thrown)

lemma st_call: "thrown s = None \<Longrightarrow> st (call a f s) = snd (f (st s))"
  by (simp add: call_def split: prod.splits)

lemma thrown_call: "thrown s = None \<Longrightarrow> thrown (call a f s) = fst (f (st s))"
  by (simp add: call_def split: prod.splits)


lemma prefix_call: "prefix (trace s) (trace (call a f s))"
  using trace_call_cases [of a f s] by auto

lemma follows_call: "follows s t \<Longrightarrow> follows (call a f s) (t @ [a])"
  by (cases "thrown s") (auto simp: follows_def trace_call call_thrown)

lemma follows_visits:
  "follows s t \<Longrightarrow>
   follows (foldl (\<lambda>s sf. call (Visit sf) (visit P sf) s) s fs) (t @ map Visit fs)"
proof (induction fs arbitrary: s t)
  case Nil
  then show ?case by simp
next
  case (Cons sf fs)
  from Cons.IH [OF follows_call [OF Cons.prems, of "Visit sf" "visit P sf"]]
  show ?case by simp
qed


lemma follows_resolve_loop:
  "follows s t \<Longrightarrow>
   \<exists>rs. follows (resolve_loop P ks s) (t @ map (\<lambda>e. Dispatch EVENT_RESOLVE (Some e)) rs)"
proof (induction ks arbitrary: s t)
  case Nil
  then show ?case by (auto intro: exI [of _ "[]"])
next
  case (Cons k ks)
  show ?case
  proof (cases "map_of (reflections (st s)) k")
    case None
    then show ?thesis using Cons.IH [OF Cons.prems] by simp
  next
    case (Some r)
    let ?a = "Dispatch EVENT_RESOLVE (Some (k, r))"
    from Cons.IH [OF follows_call [OF Cons.prems, of ?a "dispatch P EVENT_RESOLVE (Some (k, r))"]]
    obtain rs where
      "follows (resolve_loop P ks (call ?a (dispatch P EVENT_RESOLVE (Some (k, r))) s))
         ((t @ [?a]) @ map (\<lambda>e. Dispatch EVENT_RESOLVE (Some e)) rs)" by blast
    then have "follows (resolve_loop P (k # ks) s)
         (t @ map (\<lambda>e. Dispatch EVENT_RESOLVE (Some e)) ((k, r) # rs))"
      using Some by simp
    then show ?thesis by blast
  qed
qed

lemma follows_convert_files:
  fixes P :: "('r, 'sf, 'x, 'e) plugins"
  shows "follows (convert_files ts P this a h)
     ([CreateProgram (normalized ts (arrays h a)),
       Dispatch EVENT_BEGIN None]
      @ map Visit (getSourceFiles (program_of ts this (arrays h a))))"
proof -
  let ?names = "normalized ts (arrays h a)"
  let ?h = "(normalize_fileNames ts a h)\<lparr>reflections := new_ProjectReflection P (name (options (application this)))\<rparr>"
  let ?s0 = "\<lparr>st = ?h, trace = [CreateProgram ?names], thrown = None\<rparr> :: ('r, 'sf, 'x, 'e) run"
  have "follows ?s0 [CreateProgram ?names]" by (simp add: follows_def)
  from follows_visits [OF follows_call [OF this]]
  show ?thesis
    by (simp add: convert_files_def Let_def arrays_normalize_fileNames)
qed

lemma follows_convert:
  "\<exists>rs. follows (fst (convert ts P this a h))
     (lifecycle (normalized ts (arrays h a))
        (getSourceFiles (program_of ts this (arrays h a))) rs)"
proof -
  let ?names = "normalized ts (arrays h a)"
  let ?files = "getSourceFiles (createProgram ts ?names (compilerOptions (application this)))"
  let ?s3 = "resolve_begin P (convert_files ts P this a h)"
  have "follows ?s3 (([CreateProgram ?names, Dispatch EVENT_BEGIN None] @ map Visit ?files)
          @ [Dispatch EVENT_RESOLVE_BEGIN None])"
    unfolding resolve_begin_def by (rule follows_call [OF follows_convert_files])
  from follows_resolve_loop [OF this, of P "for_in_keys (reflections (st ?s3))"]
  obtain rs where "follows (resolve_loop P (for_in_keys (reflections (st ?s3))) ?s3)
     ((([CreateProgram ?names, Dispatch EVENT_BEGIN None] @ map Visit ?files)
          @ [Dispatch EVENT_RESOLVE_BEGIN None]) @ map (\<lambda>e. Dispatch EVENT_RESOLVE (Some e)) rs)"
    by blast
  from follows_call [OF follows_call [OF this]]
  show ?thesis
    by (auto simp: convert_def Let_def lifecycle_def intro!: exI [of _ rs])
qed

text \<open>
  Claim C2. The calls of every conversion follow one plan: the program is created,
  \<open>begin\<close> is dispatched, the source files are visited in the order of the program,
  \<open>resolveBegin\<close> is dispatched, then come the \<open>resolveReflection\<close> dispatches, then
  \<open>resolveEnd\<close>, then \<open>end\<close>. A conversion in which a call throws stops inside the plan;
  a conversion that returns a result has made all calls of the plan, \<open>end\<close> last.
\<close>

theorem convert_event_order:
  "\<exists>rs. prefix (trace (fst (convert ts P this a h)))
           (lifecycle (normalized ts (arrays h a))
              (getSourceFiles (program_of ts this (arrays h a))) rs)
      \<and> (\<forall>res. snd (convert ts P this a h) = Inr res \<longrightarrow>
           trace (fst (convert ts P this a h)) =
           lifecycle (normalized ts (arrays h a))
              (getSourceFiles (program_of ts this (arrays h a))) rs)"
proof -
  have r: "snd (convert ts P this a h) = Inr res \<Longrightarrow> thrown (fst (convert ts P this a h)) = None" for res
    by (simp add: convert_def Let_def split: option.splits)
  from follows_convert [of ts P this a h] obtain rs where
    "follows (fst (convert ts P this a h))
     (lifecycle (normalized ts (arrays h a))
        (getSourceFiles (program_of ts this (arrays h a))) rs)" by blast
  then show ?thesis using r by (auto simp: follows_def intro!: exI [of _ rs])
qed

theorem convert_event_order_witness:
  "snd (convert ts0 plugins_adding this0 0 store0)
     = Inr \<lparr>project = [(1, ''A''), (2, ''B''), (3, ''C'')], errors = [''syntax'', ''type'']\<rparr>
   \<and> (\<exists>rs. trace (fst (convert ts0 plugins_adding this0 0 store0))
           = lifecycle [''a/b''] [''a/b''] rs)"
proof -
  have r: "snd (convert ts0 plugins_adding this0 0 store0)
     = Inr \<lparr>project = [(1, ''A''), (2, ''B''), (3, ''C'')], errors = [''syntax'', ''type'']\<rparr>"
    by (simp add: run_defs sample_defs)
  have n: "normalized ts0 (arrays store0 0) = [''a/b'']"
    by (simp add: ts0_def store0_def)
  have f: "getSourceFiles (createProgram ts0 [''a/b''] (compilerOptions (application this0))) = [''a/b'']"
    by (simp add: ts0_def)
  from convert_event_order [of ts0 plugins_adding this0 0 store0]
  obtain rs where "\<forall>res. snd (convert ts0 plugins_adding this0 0 store0) = Inr res \<longrightarrow>
      trace (fst (convert ts0 plugins_adding this0 0 store0))
        = lifecycle (normalized ts0 (arrays store0 0))
            (getSourceFiles (program_of ts0 this0 (arrays store0 0))) rs"
    by blast
  with r have "trace (fst (convert ts0 plugins_adding this0 0 store0))
        = lifecycle (normalized ts0 (arrays store0 0))
            (getSourceFiles (program_of ts0 this0 (arrays store0 0))) rs"
    by blast
  then have "trace (fst (convert ts0 plugins_adding this0 0 store0)) = lifecycle [''a/b''] [''a/b''] rs"
    by (simp only: n f)
  with r show ?thesis by blast
qed

subsection \<open>The file names handed to the front-end\<close>

lemma prefix_visits: "prefix (trace s) (trace (foldl (\<lambda>s sf. call (Visit sf) (visit P sf) s) s fs))"
proof (induction fs arbitrary: s)
  case Nil
  show ?case by simp
next
  case (Cons sf fs)
  have "prefix (trace s) (trace (call (Visit sf) (visit P sf) s))" by (rule prefix_call)
  also have "prefix \<dots> (trace (foldl (\<lambda>s sf. call (Visit sf) (visit P sf) s) (call (Visit sf) (visit P sf) s) fs))"
    by (rule Cons.IH)
  finally show ?case by simp
qed

lemma trace_resolve_loop:
  "\<exists>rs. trace (resolve_loop P ks s) = trace s @ map (\<lambda>e. Dispatch EVENT_RESOLVE (Some e)) rs
      \<and> subseq (map fst rs) ks"
proof (induction ks arbitrary: s)
  case Nil
  show ?case by (auto intro: exI [of _ "[]"])
next
  case (Cons k ks)
  show ?case
  proof (cases "map_of (reflections (st s)) k")
    case None
    from Cons.IH [of s] obtain rs where
      "trace (resolve_loop P ks s) = trace s @ map (\<lambda>e. Dispatch EVENT_RESOLVE (Some e)) rs"
      "subseq (map fst rs) ks" by blast
    then show ?thesis using None by (auto intro!: exI [of _ rs])
  next
    case (Some r)
    let ?s' = "call (Dispatch EVENT_RESOLVE (Some (k, r))) (dispatch P EVENT_RESOLVE (Some (k, r))) s"
    from Cons.IH [of ?s'] obtain rs where rs:
      "trace (resolve_loop P ks ?s') = trace ?s' @ map (\<lambda>e. Dispatch EVENT_RESOLVE (Some e)) rs"
      "subseq (map fst rs) ks" by blast
    show ?thesis
    proof (cases "thrown s")
      case None
      then show ?thesis using rs Some
        by (auto simp: trace_call intro!: exI [of _ "(k, r) # rs"])
    next
      case (Some e)
      then have "?s' = s" by (simp add: call_thrown)
      then show ?thesis using rs \<open>map_of (reflections (st s)) k = Some r\<close>
        by (auto intro!: exI [of _ rs])
    qed
  qed
qed

lemma prefix_resolve_loop: "prefix (trace s) (trace (resolve_loop P ks s))"
  using trace_resolve_loop [of P ks s] by auto

lemma prefix_convert_files:
  "prefix [CreateProgram (normalized ts (arrays h a))]
     (trace (convert_files ts P this a h))"
proof -
  have "prefix [CreateProgram (normalized ts (arrays h a))]
     (trace (call (Dispatch EVENT_BEGIN None) (dispatch P EVENT_BEGIN None)
        \<lparr>st = (normalize_fileNames ts a h)\<lparr>reflections := new_ProjectReflection P (name (options (application this)))\<rparr>,
         trace = [CreateProgram (normalized ts (arrays h a))],
         thrown = None\<rparr>))"
    using prefix_call [of "\<lparr>st = (normalize_fileNames ts a h)\<lparr>reflections := new_ProjectReflection P (name (options (application this)))\<rparr>,
         trace = [CreateProgram (normalized ts (arrays h a))],
         thrown = None\<rparr>" "Dispatch EVENT_BEGIN None" "dispatch P EVENT_BEGIN None"] by simp
  also have "prefix \<dots> (trace (convert_files ts P this a h))"
    unfolding convert_files_def Let_def
    by (simp add: arrays_normalize_fileNames prefix_visits)
  finally show ?thesis .
qed

text \<open>
  Claim C5. The first call of every conversion creates the program, and the file names
  it hands over are the caller's file names, each passed through \<open>ts.normalizeSlashes\<close>
  and then \<open>ts.normalizePath\<close>.
\<close>

theorem createProgram_gets_normalized_names:
  "take 1 (trace (fst (convert ts P this a h))) =
     [CreateProgram (normalized ts (arrays h a))]"
proof -
  let ?c = "CreateProgram (normalized ts (arrays h a)) :: ('a, 'b) action"
  note prefix_convert_files [of ts h a P this]
  also have "prefix (trace (convert_files ts P this a h)) (trace (resolve_begin P (convert_files ts P this a h)))"
    unfolding resolve_begin_def by (rule prefix_call)
  also have "prefix \<dots> (trace (resolve_loop P (for_in_keys (reflections (st (resolve_begin P (convert_files ts P this a h))))) (resolve_begin P (convert_files ts P this a h))))"
    by (rule prefix_resolve_loop)
  also have "prefix \<dots> (trace (fst (convert ts P this a h)))"
    unfolding convert_def Let_def fst_conv
    by (rule prefix_order.trans [OF prefix_call prefix_call])
  finally show ?thesis by (auto simp: prefix_def)
qed

theorem createProgram_gets_normalized_names_witness:
  "take 1 (trace (fst (convert ts0 plugins_adding this0 0 store0))) = [CreateProgram [''a/b'']]"
  using createProgram_gets_normalized_names [of ts0 plugins_adding this0 0 store0]
  by (simp add: ts0_def store0_def)

subsection \<open>Diagnostics\<close>

lemma returns_call: "never_throws f \<Longrightarrow> thrown s = None \<Longrightarrow> thrown (call a f s) = None"
  by (simp add: thrown_call never_throws_def)

lemma returns_visits:
  "(\<And>sf. never_throws (visit P sf)) \<Longrightarrow> thrown s = None \<Longrightarrow>
   thrown (foldl (\<lambda>s sf. call (Visit sf) (visit P sf) s) s fs) = None"
  by (induction fs arbitrary: s) (auto simp: returns_call)

lemma returns_resolve_loop:
  "(\<And>arg. never_throws (dispatch P EVENT_RESOLVE arg)) \<Longrightarrow> thrown s = None \<Longrightarrow>
   thrown (resolve_loop P ks s) = None"
  by (induction ks arbitrary: s) (auto simp: returns_call split: option.splits)

lemma returns_convert:
  assumes d: "\<And>ev arg. never_throws (dispatch P ev arg)" and v: "\<And>sf. never_throws (visit P sf)"
  shows "thrown (fst (convert ts P this a h)) = None"
proof -
  have "thrown (convert_files ts P this a h) = None"
    unfolding convert_files_def Let_def by (intro returns_visits v returns_call d) simp
  then have "thrown (resolve_begin P (convert_files ts P this a h)) = None"
    unfolding resolve_begin_def by (intro returns_call d)
  then show ?thesis
    unfolding convert_def Let_def fst_conv by (intro returns_call d returns_resolve_loop)
qed

lemma convert_with_diagnostics:
  "fst (convert (with_diagnostics ds cs ts) P this a h) = fst (convert ts P this a h)"
  by (simp add: convert_def convert_files_def with_diagnostics_def normalize_fileNames_def Let_def)

lemma snd_convert:
  "snd (convert ts P this a h) =
     (case thrown (fst (convert ts P this a h)) of
        Some e \<Rightarrow> Inl e
      | None \<Rightarrow> Inr \<lparr>project = reflections (st (fst (convert ts P this a h))),
                     errors = getDiagnostics (program_of ts this (arrays h a))
                       @ checker_getDiagnostics (program_of ts this (arrays h a))\<rparr>)"
  by (simp add: convert_def Let_def arrays_normalize_fileNames split: option.splits)

lemma visited_append: "visited (xs @ ys) = visited xs @ visited ys"
  by (induction xs) (auto split: action.splits)

lemma visited_visits: "visited (map Visit fs) = fs"
  by (induction fs) auto

lemma visited_resolves: "visited (map (\<lambda>e. Dispatch EVENT_RESOLVE (Some e)) rs) = []"
  by (induction rs) auto

lemma visited_lifecycle: "visited (lifecycle names files rs) = files"
  by (simp add: lifecycle_def visited_append visited_visits visited_resolves)

text \<open>
  Claim C3. What the front-end reports as diagnostics has no influence on the run of
  \<open>convert\<close>: with any other diagnostics it makes the same calls, leaves the same store and
  throws or returns alike. When no listener and no visit throws, \<open>convert\<close> returns a
  result object that holds the project and the diagnostics of the program followed by
  those of the type checker, and it has visited every source file of the program.
\<close>

theorem convert_diagnostics:
  "fst (convert (with_diagnostics ds cs ts) P this a h) = fst (convert ts P this a h)
   \<and> ((\<forall>ev arg. never_throws (dispatch P ev arg)) \<and> (\<forall>sf. never_throws (visit P sf)) \<longrightarrow>
        snd (convert ts P this a h) =
          Inr \<lparr>project = reflections (st (fst (convert ts P this a h))),
               errors = getDiagnostics (program_of ts this (arrays h a))
                       @ checker_getDiagnostics (program_of ts this (arrays h a))\<rparr>
        \<and> visited (trace (fst (convert ts P this a h))) =
            getSourceFiles (program_of ts this (arrays h a)))"
proof (intro conjI impI)
  show "fst (convert (with_diagnostics ds cs ts) P this a h) = fst (convert ts P this a h)"
    by (rule convert_with_diagnostics)
next
  assume "(\<forall>ev arg. never_throws (dispatch P ev arg)) \<and> (\<forall>sf. never_throws (visit P sf))"
  then have t: "thrown (fst (convert ts P this a h)) = None" by (intro returns_convert) auto
  show "snd (convert ts P this a h) =
          Inr \<lparr>project = reflections (st (fst (convert ts P this a h))),
               errors = getDiagnostics (program_of ts this (arrays h a))
                       @ checker_getDiagnostics (program_of ts this (arrays h a))\<rparr>"
    by (subst snd_convert) (simp add: t)
  from follows_convert [of ts P this a h] t
  show "visited (trace (fst (convert ts P this a h))) =
            getSourceFiles (program_of ts this (arrays h a))"
    by (auto simp: follows_def visited_lifecycle)
qed

theorem convert_diagnostics_witness:
  "(\<forall>ev arg. never_throws (dispatch plugins_adding ev arg))
   \<and> (\<forall>sf. never_throws (visit plugins_adding sf))
   \<and> snd (convert ts0 plugins_adding this0 0 store0)
       = Inr \<lparr>project = reflections (st (fst (convert ts0 plugins_adding this0 0 store0))),
              errors = [''syntax'', ''type'']\<rparr>
   \<and> visited (trace (fst (convert ts0 plugins_adding this0 0 store0))) = [''a/b'']"
proof -
  have d: "\<forall>ev arg. never_throws (dispatch plugins_adding ev arg)"
    by (simp add: never_throws_def plugins_adding_def)
  have v: "\<forall>sf. never_throws (visit plugins_adding sf)"
    by (simp add: never_throws_def plugins_adding_def visit0_def)
  have n: "normalized ts0 (arrays store0 0) = [''a/b'']"
    by (simp add: ts0_def store0_def)
  have p: "createProgram ts0 [''a/b''] (compilerOptions (application this0))
      = \<lparr>getSourceFiles = [''a/b''], getDiagnostics = [''syntax''],
         checker_getDiagnostics = [''type'']\<rparr>"
    by (simp add: ts0_def)
  from convert_diagnostics [of "[]" "[]" ts0 plugins_adding this0 0 store0,
      THEN conjunct2, rule_format, OF conjI [OF d v]]
  show ?thesis using d v by (simp add: n p)
qed

subsection \<open>The caller's array\<close>

lemma arrays_call: "keeps_array a f \<Longrightarrow> arrays (st (call act f s)) a = arrays (st s) a"
proof (cases "thrown s")
  case None
  assume "keeps_array a f"
  then have "arrays (snd (f (st s))) a = arrays (st s) a" by (simp add: keeps_array_def)
  then show ?thesis using None by (simp add: st_call)
next
  case (Some e)
  then show ?thesis by (simp add: call_thrown)
qed

lemma arrays_visits:
  "(\<And>sf. keeps_array a (visit P sf)) \<Longrightarrow>
   arrays (st (foldl (\<lambda>s sf. call (Visit sf) (visit P sf) s) s fs)) a = arrays (st s) a"
  by (induction fs arbitrary: s) (auto simp: arrays_call)

lemma arrays_resolve_loop:
  "(\<And>arg. keeps_array a (dispatch P EVENT_RESOLVE arg)) \<Longrightarrow>
   arrays (st (resolve_loop P ks s)) a = arrays (st s) a"
  by (induction ks arbitrary: s) (auto simp: arrays_call split: option.splits)

lemma arrays_convert:
  assumes d: "\<And>ev arg. keeps_array a (dispatch P ev arg)" and v: "\<And>sf. keeps_array a (visit P sf)"
  shows "arrays (st (fst (convert ts P this a h))) a
       = normalized ts (arrays h a)"
proof -
  have "arrays (st (convert_files ts P this a h)) a
      = normalized ts (arrays h a)"
    unfolding convert_files_def Let_def
    by (simp add: arrays_visits [OF v] arrays_call [OF d] arrays_normalize_fileNames)
  then show ?thesis
    unfolding convert_def Let_def fst_conv resolve_begin_def
    by (simp add: arrays_call [OF d] arrays_resolve_loop [OF d])
qed

text \<open>
  Claim C10. The loop at the head of \<open>convert\<close> works on the caller's array itself:
  after it, the array at the caller's address holds, element by element, the normalised
  forms of the names it held. The calls that follow receive the same array; when they
  leave it as it is, this is what the caller finds in its array after \<open>convert\<close>.
\<close>

theorem convert_normalizes_in_place:
  "arrays (normalize_fileNames ts a h) a = normalized ts (arrays h a)
   \<and> ((\<forall>ev arg. keeps_array a (dispatch P ev arg)) \<and> (\<forall>sf. keeps_array a (visit P sf)) \<longrightarrow>
        arrays (st (fst (convert ts P this a h))) a
          = normalized ts (arrays h a))"
  using arrays_convert [of a P ts this h] by (simp add: arrays_normalize_fileNames)

theorem convert_normalizes_in_place_witness:
  "(\<forall>ev arg. keeps_array 0 (dispatch plugins_adding ev arg))
   \<and> (\<forall>sf. keeps_array 0 (visit plugins_adding sf))
   \<and> arrays store0 0 = [[CHR ''a'', CHR 0x5C, CHR ''b'']]
   \<and> arrays (st (fst (convert ts0 plugins_adding this0 0 store0))) 0 = [''a/b'']"
proof -
  have d: "\<forall>ev arg. keeps_array 0 (dispatch plugins_adding ev arg)"
    by (simp add: keeps_array_def plugins_adding_def)
  have v: "\<forall>sf. keeps_array 0 (visit plugins_adding sf)"
    by (simp add: keeps_array_def plugins_adding_def visit0_def)
  have n: "normalized ts0 (arrays store0 0) = [''a/b'']"
    by (simp add: ts0_def store0_def)
  have s: "arrays store0 0 = [[CHR ''a'', CHR 0x5C, CHR ''b'']]"
    by (simp add: store0_def)
  from convert_normalizes_in_place [of ts0 0 store0 plugins_adding this0,
      THEN conjunct2, rule_format, OF conjI [OF d v]]
  have "arrays (st (fst (convert ts0 plugins_adding this0 0 store0))) 0 = [''a/b'']"
    by (simp only: n)
  with d v s show ?thesis by blast
qed

subsection \<open>The resolution pass\<close>



















end
